theory Spec2Isabelle
  imports Main
begin

section \<open>Transposition of chord tokens (main.ts, method transpose)\<close>

subsection \<open>Data\<close>

text \<open>The direction argument is the string union \<^verbatim>\<open>"up" | "down"\<close>.\<close>

datatype direction = Up | Down

text \<open>
  Of a chord token the method reads only the field \<^verbatim>\<open>value\<close>. The field is called
  \<open>token_value\<close> here.
\<close>

record chordToken =
  token_value :: string

text \<open>
  One element of the argument \<^verbatim>\<open>chordTokenRanges\<close>:
  \<^verbatim>\<open>{from: number, to: number, chordToken: ChordToken}\<close>, the fields prefixed with
  \<open>range_\<close>.
\<close>

record chordTokenRange =
  range_from :: int
  range_to :: int
  range_chordToken :: chordToken

text \<open>One pushed change: \<^verbatim>\<open>{from: chordStartIndex, to: chordEndIndex, insert: transposedChord}\<close>.\<close>

record changeSpec =
  change_from :: int
  change_to :: int
  insert_text :: string

subsection \<open>String primitives of the host language\<close>

text \<open>
  \<^verbatim>\<open>s.split(sep)\<close> for a one-character separator: the pieces between the occurrences of
  the separator, in order; a string without the separator is the only piece. The second
  argument is the piece read so far.
\<close>

fun split_from :: "char \<Rightarrow> string \<Rightarrow> string \<Rightarrow> string list" where
  "split_from sep piece [] = [piece]"
| "split_from sep piece (c # cs) =
     (if c = sep then piece # split_from sep [] cs
      else split_from sep (piece @ [c]) cs)"

definition split_str :: "char \<Rightarrow> string \<Rightarrow> string list" where
  "split_str sep s = split_from sep [] s"

text \<open>\<^verbatim>\<open>s.includes('/')\<close>\<close>

definition includes_chr :: "string \<Rightarrow> char \<Rightarrow> bool" where
  "includes_chr s c = (c \<in> set s)"

subsection \<open>The loop body and the loop\<close>

text \<open>
  The two functions the loop body calls are not part of main.ts: \<^verbatim>\<open>Chord.tokenize\<close>
  belongs to the chord-symbol library and \<^verbatim>\<open>transposeTonic\<close> to the module
  chordsUtils. Both are parameters of the model: \<open>tokenize\<close> returns the pair
  \<^verbatim>\<open>[chordTonic, chordType]\<close>, where the second component may be undefined (\<open>None\<close>),
  which the source guards with \<^verbatim>\<open>chordType ?? ""\<close>.

  \<open>transposedChord\<close> is the value of the variable of that name at the end of one
  iteration. In the slash branch the destructuring
  \<^verbatim>\<open>[slashChordType, afterSlash] = chordType.split('/')\<close> keeps the first two pieces
  and ignores the others. A string that includes the separator always has two pieces (lemma
  \<open>split_str_two\<close>), so the last case of the inner \<open>case\<close> is never taken.
\<close>

definition transposedChord ::
  "(string \<Rightarrow> string \<times> string option) \<Rightarrow> (string \<Rightarrow> direction \<Rightarrow> string) \<Rightarrow>
   chordToken \<Rightarrow> direction \<Rightarrow> string" where
  "transposedChord tokenize transposeTonic chordToken direction =
     (case tokenize (token_value chordToken) of (chordTonic, chordType) \<Rightarrow>
        let simplifiedTonic = transposeTonic chordTonic direction in
        (case chordType of
           None \<Rightarrow> simplifiedTonic @ ''''
         | Some ty \<Rightarrow>
             if ty \<noteq> '''' \<and> includes_chr ty (CHR ''/'') then
               (case split_str (CHR ''/'') ty of
                  slashChordType # afterSlash # _ \<Rightarrow>
                    simplifiedTonic @ slashChordType @ ''/'' @ transposeTonic afterSlash direction
                | _ \<Rightarrow> simplifiedTonic @ ty)
             else simplifiedTonic @ ty))"

text \<open>
  The \<^verbatim>\<open>for ... of\<close> loop with its accumulator \<^verbatim>\<open>changes\<close>; every iteration pushes
  one change at the end.
\<close>

fun transpose_loop ::
  "(string \<Rightarrow> string \<times> string option) \<Rightarrow> (string \<Rightarrow> direction \<Rightarrow> string) \<Rightarrow>
   direction \<Rightarrow> chordTokenRange list \<Rightarrow> changeSpec list \<Rightarrow> changeSpec list" where
  "transpose_loop tokenize transposeTonic direction [] changes = changes"
| "transpose_loop tokenize transposeTonic direction (chordTokenRange # rest) changes =
     transpose_loop tokenize transposeTonic direction rest
       (changes @
        [\<lparr>change_from = range_from chordTokenRange,
          change_to = range_to chordTokenRange,
          insert_text =
            transposedChord tokenize transposeTonic (range_chordToken chordTokenRange) direction\<rparr>])"

text \<open>
  \<open>transpose\<close> returns the array \<^verbatim>\<open>changes\<close> that the method hands to
  \<^verbatim>\<open>applyChanges\<close> of the editor plugin.
\<close>

definition transpose ::
  "(string \<Rightarrow> string \<times> string option) \<Rightarrow> (string \<Rightarrow> direction \<Rightarrow> string) \<Rightarrow>
   chordTokenRange list \<Rightarrow> direction \<Rightarrow> changeSpec list" where
  "transpose tokenize transposeTonic chordTokenRanges direction =
     transpose_loop tokenize transposeTonic direction chordTokenRanges []"

section \<open>The helpers of the transposition that live outside main.ts\<close>

subsection \<open>Tonics and pitch classes\<close>

text \<open>
  Modelled from the spec: the notion of a tonic, which the absent module chordsUtils and the
  chord-symbol library implement. The spec: a tonic is "the root pitch letter of a chord,
  with optional sharp/flat accidentals", the letters being A to G; pitches are counted in
  "standard pitch-class arithmetic (12-tone equal temperament)".
\<close>

definition is_letter :: "char \<Rightarrow> bool" where
  "is_letter c = (c \<in> set ''ABCDEFG'')"

definition is_accidental :: "char \<Rightarrow> bool" where
  "is_accidental c = (c = CHR ''#'' \<or> c = CHR ''b'')"

definition letterSemitone :: "char \<Rightarrow> int" where
  "letterSemitone c =
     (if c = CHR ''C'' then 0 else if c = CHR ''D'' then 2 else if c = CHR ''E'' then 4
      else if c = CHR ''F'' then 5 else if c = CHR ''G'' then 7 else if c = CHR ''A'' then 9
      else 11)"

fun accidentalShift :: "string \<Rightarrow> int" where
  "accidentalShift [] = 0"
| "accidentalShift (c # cs) = (if c = CHR ''#'' then 1 else - 1) + accidentalShift cs"

text \<open>
  Modelled from the spec: the pitch class of a recognizable tonic, a number from 0 (C) to
  11 (B); \<open>None\<close> for a string that is not a letter followed by accidentals only.
\<close>

definition pitchClass :: "string \<Rightarrow> int option" where
  "pitchClass tonic =
     (case tonic of
        [] \<Rightarrow> None
      | c # cs \<Rightarrow>
          if is_letter c \<and> list_all is_accidental cs
          then Some ((letterSemitone c + accidentalShift cs) mod 12)
          else None)"

text \<open>Modelled from the spec: "exactly one semitone in the given direction".\<close>

definition semitone :: "direction \<Rightarrow> int \<Rightarrow> int" where
  "semitone direction p = (case direction of Up \<Rightarrow> (p + 1) mod 12 | Down \<Rightarrow> (p - 1) mod 12)"

text \<open>
  Modelled from the spec: the re-spelling "to the simplest enharmonic form (prefer the
  spelling with fewer accidentals; tie-break deterministically)". The seven naturals have
  no accidental; each of the other five pitch classes has one spelling with a sharp and one
  with a flat, and the tie-break chooses between them.
\<close>

datatype accidental = Sharp | Flat

definition sharpNames :: "string list" where
  "sharpNames =
     [''C'', ''C#'', ''D'', ''D#'', ''E'', ''F'', ''F#'', ''G'', ''G#'', ''A'', ''A#'', ''B'']"

definition flatNames :: "string list" where
  "flatNames =
     [''C'', ''Db'', ''D'', ''Eb'', ''E'', ''F'', ''Gb'', ''G'', ''Ab'', ''A'', ''Bb'', ''B'']"

definition spell :: "accidental \<Rightarrow> int \<Rightarrow> string" where
  "spell a p = (case a of Sharp \<Rightarrow> sharpNames | Flat \<Rightarrow> flatNames) ! nat (p mod 12)"

text \<open>
  Modelled from the spec: \<^verbatim>\<open>transposeTonic\<close> of the absent module chordsUtils. The spec
  leaves the tie-break open ("an implementer should pick and document one deterministic
  rule"), so the rule is the parameter \<open>tieBreak\<close>: the accidental used for a tie in each
  direction. A string that is no recognizable tonic is "left unchanged or passed through
  verbatim".
\<close>

definition transposeTonic :: "(direction \<Rightarrow> accidental) \<Rightarrow> string \<Rightarrow> direction \<Rightarrow> string" where
  "transposeTonic tieBreak tonic direction =
     (case pitchClass tonic of
        None \<Rightarrow> tonic
      | Some p \<Rightarrow> spell (tieBreak direction) (semitone direction p))"

text \<open>The rule the spec gives as its example: "prefer sharps going up, flats going down".\<close>

definition sharpsUpFlatsDown :: "direction \<Rightarrow> accidental" where
  "sharpsUpFlatsDown direction = (case direction of Up \<Rightarrow> Sharp | Down \<Rightarrow> Flat)"

text \<open>
  Modelled from the spec: \<^verbatim>\<open>Chord.tokenize\<close> of the chord-symbol library, which is not
  part of the sources. The spec: "Split the token's raw value into tonic and quality via
  the tonic-quality boundary (first non-tonic character)". A raw value that does not start
  with a letter from A to G has the empty tonic.
\<close>

definition Chord_tokenize :: "string \<Rightarrow> string \<times> string option" where
  "Chord_tokenize rawValue =
     (case rawValue of
        [] \<Rightarrow> ('''', Some '''')
      | c # cs \<Rightarrow>
          if is_letter c
          then (c # takeWhile is_accidental cs, Some (dropWhile is_accidental cs))
          else ('''', Some rawValue))"

text \<open>The transposed string of a raw value, with the two modelled helpers.\<close>

definition transposeValue :: "(direction \<Rightarrow> accidental) \<Rightarrow> direction \<Rightarrow> string \<Rightarrow> string" where
  "transposeValue tieBreak direction rawValue =
     transposedChord Chord_tokenize (transposeTonic tieBreak) \<lparr>token_value = rawValue\<rparr> direction"

subsection \<open>Vocabulary of the statements\<close>

text \<open>
  The two pieces of a quality that the destructuring keeps: the text before the first
  slash, and the text between the first slash and the second one (or the end).
\<close>

definition chordQualityPart :: "string \<Rightarrow> string" where
  "chordQualityPart quality = takeWhile (\<lambda>c. c \<noteq> CHR ''/'') quality"

definition bassNotePart :: "string \<Rightarrow> string" where
  "bassNotePart quality =
     takeWhile (\<lambda>c. c \<noteq> CHR ''/'') (tl (dropWhile (\<lambda>c. c \<noteq> CHR ''/'') quality))"

text \<open>The change that one iteration of the loop pushes for a range.\<close>

definition change_of ::
  "(string \<Rightarrow> string \<times> string option) \<Rightarrow> (string \<Rightarrow> direction \<Rightarrow> string) \<Rightarrow>
   direction \<Rightarrow> chordTokenRange \<Rightarrow> changeSpec" where
  "change_of tok tt direction r =
     \<lparr>change_from = range_from r, change_to = range_to r,
      insert_text = transposedChord tok tt (range_chordToken r) direction\<rparr>"

text \<open>
  Source spans are half-open intervals \<open>[from, to)\<close> of offsets. A list of spans is
  ascending when the start offsets are sorted, and disjoint when no two of its spans
  overlap.
\<close>

definition spanOfRange :: "chordTokenRange \<Rightarrow> int \<times> int" where
  "spanOfRange r = (range_from r, range_to r)"

definition spanOfChange :: "changeSpec \<Rightarrow> int \<times> int" where
  "spanOfChange c = (change_from c, change_to c)"

definition spansAscending :: "(int \<times> int) list \<Rightarrow> bool" where
  "spansAscending spans = sorted (map fst spans)"

definition spansDisjoint :: "(int \<times> int) list \<Rightarrow> bool" where
  "spansDisjoint spans = sorted_wrt (\<lambda>a b. snd a \<le> fst b \<or> snd b \<le> fst a) spans"

section \<open>Custom chord types (the module of extendChordType and addCustomChordTypes)\<close>

subsection \<open>Data\<close>

text \<open>\<^verbatim>\<open>interface CustomChordType { intervals: string[]; aliases: string[]; name: string }\<close>\<close>

record customChordType =
  intervals :: "string list"
  aliases :: "string list"
  name :: string

text \<open>
  The object that \<^verbatim>\<open>ChordType.get\<close> returns. The module reads its flag \<^verbatim>\<open>empty\<close> and its
  \<^verbatim>\<open>aliases\<close>, and the spread hands its other fields on to the result, of which the
  declared result type \<^verbatim>\<open>CustomChordType\<close> shows \<^verbatim>\<open>intervals\<close> and \<^verbatim>\<open>name\<close>.
\<close>

record chordType = customChordType +
  empty :: bool

text \<open>\<^verbatim>\<open>Partial<CustomChordType>\<close>: every field may be absent.\<close>

record chordTypeExtension =
  ext_intervals :: "string list option"
  ext_aliases :: "string list option"
  ext_name :: "string option"

text \<open>\<^verbatim>\<open>new Error(message)\<close>\<close>

datatype error = Error string

subsection \<open>The functions of the module\<close>

text \<open>
  The base knowledge base is the parameter \<open>ChordType_get\<close>: the library function
  \<^verbatim>\<open>ChordType.get\<close>, which answers an unknown name with an object whose \<^verbatim>\<open>empty\<close> is set.
  The result is the spread \<^verbatim>\<open>{...originalChordType, ...chordTypeExtension, aliases:
  mergedAliases}\<close>: a field of the extension wins over the field of the base, and the
  aliases are the merged ones.
\<close>

definition extendChordType ::
  "(string \<Rightarrow> chordType) \<Rightarrow> string \<Rightarrow> chordTypeExtension \<Rightarrow> error + customChordType" where
  "extendChordType ChordType_get type chordTypeExtension =
     (let originalChordType = ChordType_get type in
      if empty originalChordType then
        Inl (Error (''Error while extending chord type: chord type '' @ type @ '' not found.''))
      else
        let mergedAliases =
              aliases originalChordType @
              (case ext_aliases chordTypeExtension of Some a \<Rightarrow> a | None \<Rightarrow> [])
        in Inr \<lparr>intervals =
                  (case ext_intervals chordTypeExtension of
                     Some i \<Rightarrow> i | None \<Rightarrow> intervals originalChordType),
                aliases = mergedAliases,
                name =
                  (case ext_name chordTypeExtension of
                     Some n \<Rightarrow> n | None \<Rightarrow> name originalChordType)\<rparr>)"

text \<open>
  The constant \<^verbatim>\<open>customChordTypes\<close>. Its array literal is evaluated once, when the module
  is loaded, element by element; an exception of \<open>extendChordType\<close> ends the evaluation,
  and no array exists then.
\<close>

definition customChordTypes :: "(string \<Rightarrow> chordType) \<Rightarrow> error + customChordType list" where
  "customChordTypes ChordType_get =
     (case extendChordType ChordType_get ''7#5''
             \<lparr>ext_intervals = None, ext_aliases = Some [''7(5+)'', ''7(+5)'', ''7+5''],
              ext_name = None\<rparr> of
        Inl e \<Rightarrow> Inl e
      | Inr first \<Rightarrow>
          (case extendChordType ChordType_get ''M7''
                  \<lparr>ext_intervals = None, ext_aliases = Some [''7M''], ext_name = None\<rparr> of
             Inl e \<Rightarrow> Inl e
           | Inr second \<Rightarrow>
               (case extendChordType ChordType_get ''m9''
                       \<lparr>ext_intervals = None, ext_aliases = Some [''m7(9)''],
                        ext_name = None\<rparr> of
                  Inl e \<Rightarrow> Inl e
                | Inr third \<Rightarrow>
                    Inr [first, second, third,
                         \<lparr>intervals = [''1P'', ''4P'', ''5A''],
                          aliases = [''sus4#5'', ''4(5+)''],
                          name = ''suspended four sharp five''\<rparr>])))"

text \<open>
  \<^verbatim>\<open>addCustomChordTypes\<close> calls \<^verbatim>\<open>ChordType.add(intervals, aliases, name)\<close> for every
  element, in order. The library function is the parameter \<open>ChordType_add\<close>, and the table
  it writes is passed through.
\<close>

definition addCustomChordTypes ::
  "(string list \<Rightarrow> string list \<Rightarrow> string \<Rightarrow> 'table \<Rightarrow> 'table) \<Rightarrow>
   customChordType list \<Rightarrow> 'table \<Rightarrow> 'table" where
  "addCustomChordTypes ChordType_add types table =
     fold (\<lambda>ct. ChordType_add (intervals ct) (aliases ct) (name ct)) types table"

text \<open>
  Loading the module and then calling the exported function. The initializer of
  \<^verbatim>\<open>customChordTypes\<close> runs first; when it throws, the module does not finish loading and
  \<^verbatim>\<open>addCustomChordTypes\<close> is never reached. The result is the table afterwards and the
  error thrown, if any.
\<close>

definition loadThenAddCustomChordTypes ::
  "(string \<Rightarrow> chordType) \<Rightarrow> (string list \<Rightarrow> string list \<Rightarrow> string \<Rightarrow> 'table \<Rightarrow> 'table) \<Rightarrow>
   'table \<Rightarrow> 'table \<times> error option" where
  "loadThenAddCustomChordTypes ChordType_get ChordType_add table =
     (case customChordTypes ChordType_get of
        Inl e \<Rightarrow> (table, Some e)
      | Inr types \<Rightarrow> (addCustomChordTypes ChordType_add types table, None))"

subsection \<open>The table of the chord-symbol library\<close>

text \<open>
  Modelled from the spec: the global chord-symbol table and \<^verbatim>\<open>ChordType.add\<close> of the
  chord-symbol library, which is not part of the sources. The spec: the registry is "the
  process-wide table mapping canonical names/aliases to interval sets", a chord type is
  registered "by canonical intervals, aliases, and name", and "lookup by name or any alias
  must resolve to the same ChordType". So the table maps a name or an alias to the chord
  type registered last under it, and \<open>ChordType_add\<close> enters the chord type under its name
  and under each of its aliases.
\<close>

type_synonym chordTable = "string \<rightharpoonup> customChordType"

definition ChordType_add ::
  "string list \<Rightarrow> string list \<Rightarrow> string \<Rightarrow> chordTable \<Rightarrow> chordTable" where
  "ChordType_add ivals als fullName table =
     fold (\<lambda>key t. t(key \<mapsto> \<lparr>intervals = ivals, aliases = als, name = fullName\<rparr>))
       (fullName # als) table"

text \<open>The keys under which a chord type is registered.\<close>

definition keysOf :: "customChordType \<Rightarrow> string list" where
  "keysOf ct = name ct # aliases ct"

subsection \<open>A small base knowledge base\<close>

text \<open>
  Three entries in the shape of the library's dictionary, every other key being unknown;
  the same base with one more key unknown; and the custom chord types that the three
  entries give. They instantiate the statements below.
\<close>

definition sampleBase :: "string \<Rightarrow> chordType" where
  "sampleBase key =
     (if key = ''7#5'' then
        \<lparr>intervals = [''1P'', ''3M'', ''5A'', ''7m''], aliases = [''7#5'', ''+7''],
         name = ''augmented seventh'', empty = False\<rparr>
      else if key = ''M7'' then
        \<lparr>intervals = [''1P'', ''3M'', ''5P'', ''7M''], aliases = [''maj7'', ''M7''],
         name = ''major seventh'', empty = False\<rparr>
      else if key = ''m9'' then
        \<lparr>intervals = [''1P'', ''3m'', ''5P'', ''7m'', ''9M''], aliases = [''m9'', ''-9''],
         name = ''minor ninth'', empty = False\<rparr>
      else \<lparr>intervals = [], aliases = [], name = '''', empty = True\<rparr>)"

definition sampleBaseWithout :: "string \<Rightarrow> string \<Rightarrow> chordType" where
  "sampleBaseWithout missing key =
     (if key = missing then \<lparr>intervals = [], aliases = [], name = '''', empty = True\<rparr>
      else sampleBase key)"

definition samplePreconfigured :: "customChordType list" where
  "samplePreconfigured =
     [\<lparr>intervals = [''1P'', ''3M'', ''5A'', ''7m''],
       aliases = [''7#5'', ''+7'', ''7(5+)'', ''7(+5)'', ''7+5''],
       name = ''augmented seventh''\<rparr>,
      \<lparr>intervals = [''1P'', ''3M'', ''5P'', ''7M''],
       aliases = [''maj7'', ''M7'', ''7M''],
       name = ''major seventh''\<rparr>,
      \<lparr>intervals = [''1P'', ''3m'', ''5P'', ''7m'', ''9M''],
       aliases = [''m9'', ''-9'', ''m7(9)''],
       name = ''minor ninth''\<rparr>,
      \<lparr>intervals = [''1P'', ''4P'', ''5A''],
       aliases = [''sus4#5'', ''4(5+)''],
       name = ''suspended four sharp five''\<rparr>]"

section \<open>Properties of the string primitives\<close>

lemma split_from_no_sep:
  "sep \<notin> set s \<Longrightarrow> split_from sep piece s = [piece @ s]"
  by (induction s arbitrary: piece) auto

lemma split_from_first:
  "sep \<notin> set a \<Longrightarrow> split_from sep piece (a @ sep # r) = (piece @ a) # split_from sep [] r"
  by (induction a arbitrary: piece) auto

lemma split_str_one_sep:
  "sep \<notin> set a \<Longrightarrow> sep \<notin> set b \<Longrightarrow> split_str sep (a @ sep # b) = [a, b]"
  by (simp add: split_str_def split_from_first split_from_no_sep)

lemma split_str_two_seps:
  "sep \<notin> set a \<Longrightarrow> sep \<notin> set b \<Longrightarrow>
   split_str sep (a @ sep # b @ sep # r) = a # b # split_from sep [] r"
  by (simp add: split_str_def split_from_first)

lemma split_from_not_Nil: "split_from sep piece s \<noteq> []"
  by (induction s arbitrary: piece) auto

lemma hd_split_from:
  "hd (split_from sep piece s) = piece @ takeWhile (\<lambda>c. c \<noteq> sep) s"
  by (induction s arbitrary: piece) auto

lemma split_from_head:
  "\<exists>ps. split_from sep piece s = (piece @ takeWhile (\<lambda>c. c \<noteq> sep) s) # ps"
  using hd_split_from [of sep piece s] split_from_not_Nil [of sep piece s]
  by (cases "split_from sep piece s") auto

text \<open>
  A string that includes the separator splits into at least two pieces, so the
  destructuring of the slash branch always finds both of its pieces.
\<close>

lemma split_str_parts:
  assumes "sep \<in> set s"
  shows "\<exists>ps. split_str sep s =
           takeWhile (\<lambda>c. c \<noteq> sep) s #
           takeWhile (\<lambda>c. c \<noteq> sep) (tl (dropWhile (\<lambda>c. c \<noteq> sep) s)) # ps"
proof -
  from assms obtain a r where s: "s = a @ sep # r" and a: "sep \<notin> set a"
    by (auto dest: split_list_first)
  from a have tw: "takeWhile (\<lambda>c. c \<noteq> sep) s = a"
    and dw: "dropWhile (\<lambda>c. c \<noteq> sep) s = sep # r"
    by (simp_all add: s takeWhile_append dropWhile_append)
  obtain ps where "split_from sep [] r = takeWhile (\<lambda>c. c \<noteq> sep) r # ps"
    using split_from_head [of sep "[]" r] by auto
  with a show ?thesis
    by (simp add: tw dw) (simp add: s split_str_def split_from_first)
qed

lemma split_str_two:
  assumes "sep \<in> set s"
  shows "\<exists>a b r. split_str sep s = a # b # r"
  using split_str_parts [OF assms] by blast

lemma parts_one_slash:
  assumes "CHR ''/'' \<notin> set cq"
  shows "chordQualityPart (cq @ CHR ''/'' # rest) = cq"
    and "bassNotePart (cq @ CHR ''/'' # rest) = takeWhile (\<lambda>c. c \<noteq> CHR ''/'') rest"
  using assms
  by (simp_all add: chordQualityPart_def bassNotePart_def takeWhile_append dropWhile_append)

lemma takeWhile_no_slash:
  "CHR ''/'' \<notin> set bass \<Longrightarrow> takeWhile (\<lambda>c. c \<noteq> CHR ''/'') bass = bass"
  by (induction bass) auto

section \<open>Properties of the loop body and of the loop\<close>

lemma transposedChord_slash:
  assumes "tok (token_value ct) = (tonic, Some q)" and "CHR ''/'' \<in> set q"
  shows "transposedChord tok tt ct d =
           tt tonic d @ chordQualityPart q @ ''/'' @ tt (bassNotePart q) d"
proof -
  obtain ps where "split_str (CHR ''/'') q = chordQualityPart q # bassNotePart q # ps"
    using split_str_parts [OF assms(2)] by (auto simp: chordQualityPart_def bassNotePart_def)
  moreover from assms(2) have "q \<noteq> []" by auto
  ultimately show ?thesis
    using assms by (simp add: transposedChord_def includes_chr_def)
qed

lemma transposedChord_two_slashes:
  assumes "tok (token_value ct) = (tonic, Some (cq @ ''/'' @ second @ ''/'' @ r))"
    and "CHR ''/'' \<notin> set cq" and "CHR ''/'' \<notin> set second"
  shows "transposedChord tok tt ct d = tt tonic d @ cq @ ''/'' @ tt second d"
  using assms by (simp add: transposedChord_def includes_chr_def split_str_two_seps)

lemma transposedChord_no_slash:
  assumes "tok (token_value ct) = (tonic, Some q)" and "CHR ''/'' \<notin> set q"
  shows "transposedChord tok tt ct d = tt tonic d @ q"
  using assms by (simp add: transposedChord_def includes_chr_def)

lemma transposedChord_undefined:
  assumes "tok (token_value ct) = (tonic, None)"
  shows "transposedChord tok tt ct d = tt tonic d"
  using assms by (simp add: transposedChord_def)

lemma transpose_loop_map:
  "transpose_loop tok tt d rs changes = changes @ map (change_of tok tt d) rs"
  by (induction rs arbitrary: changes) (simp_all add: change_of_def)

lemma transpose_map: "transpose tok tt rs d = map (change_of tok tt d) rs"
  by (simp add: transpose_def transpose_loop_map)

section \<open>Properties of the modelled helpers\<close>

lemmas model_defs =
  transposeValue_def transposedChord_def Chord_tokenize_def is_letter_def is_accidental_def
  includes_chr_def split_str_def transposeTonic_def pitchClass_def letterSemitone_def
  semitone_def spell_def sharpNames_def flatNames_def sharpsUpFlatsDown_def
  chordQualityPart_def bassNotePart_def

lemma pitchClass_range: "pitchClass t = Some p \<Longrightarrow> 0 \<le> p \<and> p < 12"
  by (auto simp: pitchClass_def split: list.splits if_splits)

lemma twelve_cases:
  "0 \<le> p \<Longrightarrow> p < 12 \<Longrightarrow>
   p = 0 \<or> p = 1 \<or> p = 2 \<or> p = 3 \<or> p = 4 \<or> p = 5 \<or> p = 6 \<or> p = 7 \<or> p = 8 \<or> p = 9 \<or>
   p = 10 \<or> p = (11::int)"
  by arith

lemma pitchClass_spell:
  assumes "0 \<le> p" "p < 12"
  shows "pitchClass (spell a p) = Some p"
  using twelve_cases [OF assms]
  by (cases a) (auto simp: spell_def sharpNames_def flatNames_def pitchClass_def is_letter_def
      is_accidental_def letterSemitone_def)

lemma semitone_range: "0 \<le> semitone d p \<and> semitone d p < 12"
  by (cases d) (simp_all add: semitone_def)

lemma semitone_Down_Up: "0 \<le> p \<Longrightarrow> p < 12 \<Longrightarrow> semitone Down (semitone Up p) = p"
  by (simp add: semitone_def mod_simps)

lemma semitone_Up_Down: "0 \<le> p \<Longrightarrow> p < 12 \<Longrightarrow> semitone Up (semitone Down p) = p"
  by (simp add: semitone_def mod_simps)

lemma pitchClass_transposeTonic:
  "pitchClass t = Some p \<Longrightarrow> pitchClass (transposeTonic tb t d) = Some (semitone d p)"
  by (simp add: transposeTonic_def pitchClass_spell semitone_range)

lemma example_slash:
  "transposeValue tieBreak Up ''G/B'' =
     (case tieBreak Up of Sharp \<Rightarrow> ''G#/C'' | Flat \<Rightarrow> ''Ab/C'')"
  by (cases "tieBreak Up") (simp_all add: model_defs)

section \<open>The claims about transposition\<close>

text \<open>
  C1. For every chord token whose quality contains a slash, the transposed string is the
  transposed tonic, the chord-quality part, a slash and the transposed bass-note part, where
  the tonic and the bass note go through the same tonic transposition independently. This
  holds for every tokenizer and every tonic transposition. When the quality has the shape
  \<open>cq/bass\<close> with one slash, the two parts are \<open>cq\<close> and \<open>bass\<close>. With the tonic
  transposition of the spec, each of the two notes moves by one semitone in the given
  direction, and \<open>G/B\<close> transposed up is \<open>G#/C\<close> (\<open>Ab/C\<close> when ties go to flats).
\<close>

theorem transpose_slash_chord:
  assumes "tok (token_value ct) = (tonic, Some quality)"
    and "CHR ''/'' \<in> set quality"
  shows "transposedChord tok tt ct direction =
           tt tonic direction @ chordQualityPart quality @ ''/'' @
           tt (bassNotePart quality) direction
       \<and> (quality = cq @ ''/'' @ bass \<and> CHR ''/'' \<notin> set cq \<and> CHR ''/'' \<notin> set bass \<longrightarrow>
            chordQualityPart quality = cq \<and> bassNotePart quality = bass)
       \<and> (pitchClass tonic = Some p \<longrightarrow>
            pitchClass (transposeTonic tieBreak tonic direction) = Some (semitone direction p))
       \<and> (pitchClass (bassNotePart quality) = Some b \<longrightarrow>
            pitchClass (transposeTonic tieBreak (bassNotePart quality) direction) =
              Some (semitone direction b))
       \<and> transposeValue tieBreak Up ''G/B'' =
            (case tieBreak Up of Sharp \<Rightarrow> ''G#/C'' | Flat \<Rightarrow> ''Ab/C'')"
proof (intro conjI impI)
  show "transposedChord tok tt ct direction =
          tt tonic direction @ chordQualityPart quality @ ''/'' @
          tt (bassNotePart quality) direction"
    using assms by (rule transposedChord_slash)
next
  assume "quality = cq @ ''/'' @ bass \<and> CHR ''/'' \<notin> set cq \<and> CHR ''/'' \<notin> set bass"
  then show "chordQualityPart quality = cq" and "bassNotePart quality = bass"
    by (simp_all add: parts_one_slash takeWhile_no_slash)
next
  assume "pitchClass tonic = Some p"
  then show "pitchClass (transposeTonic tieBreak tonic direction) = Some (semitone direction p)"
    by (rule pitchClass_transposeTonic)
next
  assume "pitchClass (bassNotePart quality) = Some b"
  then show "pitchClass (transposeTonic tieBreak (bassNotePart quality) direction) =
      Some (semitone direction b)"
    by (rule pitchClass_transposeTonic)
next
  show "transposeValue tieBreak Up ''G/B'' =
      (case tieBreak Up of Sharp \<Rightarrow> ''G#/C'' | Flat \<Rightarrow> ''Ab/C'')"
    by (rule example_slash)
qed

theorem transpose_slash_chord_witness:
  "Chord_tokenize (token_value \<lparr>token_value = ''F#m7/C#''\<rparr>) = (''F#'', Some ''m7/C#'')
   \<and> CHR ''/'' \<in> set ''m7/C#''
   \<and> transposedChord Chord_tokenize (transposeTonic sharpsUpFlatsDown)
        \<lparr>token_value = ''F#m7/C#''\<rparr> Down = ''Fm7/C''
   \<and> chordQualityPart ''m7/C#'' = ''m7'' \<and> bassNotePart ''m7/C#'' = ''C#''
   \<and> pitchClass ''F#'' = Some 6
   \<and> pitchClass (transposeTonic sharpsUpFlatsDown ''F#'' Down) = Some 5
   \<and> pitchClass ''C#'' = Some 1
   \<and> pitchClass (transposeTonic sharpsUpFlatsDown ''C#'' Down) = Some 0
   \<and> transposeValue sharpsUpFlatsDown Up ''G/B'' = ''G#/C''"
  using transpose_slash_chord [of Chord_tokenize "\<lparr>token_value = ''F#m7/C#''\<rparr>" "''F#''"
      "''m7/C#''" "transposeTonic sharpsUpFlatsDown" Down "''m7''" "''C#''" 6 sharpsUpFlatsDown 1]
  by (simp add: model_defs)

lemma example_up:
  "transposeValue tieBreak Up ''C'' = (case tieBreak Up of Sharp \<Rightarrow> ''C#'' | Flat \<Rightarrow> ''Db'')"
  by (cases "tieBreak Up") (simp_all add: model_defs)

lemma example_down: "transposeValue tieBreak Down ''C#'' = ''C''"
  by (cases "tieBreak Down") (simp_all add: model_defs)

text \<open>
  C3. For every chord token whose quality contains no slash, the transposed string is the
  transposed tonic followed by the quality, which is carried over unchanged; an undefined or
  empty quality contributes nothing. This holds for every tokenizer and every tonic
  transposition. With the tonic transposition of the spec the tonic moves by one semitone
  in the given direction; the bare token \<open>C\<close> transposed up is \<open>C#\<close> (\<open>Db\<close> when ties go
  to flats), and \<open>C#\<close> transposed down is \<open>C\<close>.
\<close>

theorem transpose_plain_chord:
  assumes "tok (token_value ct) = (tonic, chordType)"
    and "chordType = None \<or> (\<exists>quality. chordType = Some quality \<and> CHR ''/'' \<notin> set quality)"
  shows "transposedChord tok tt ct direction =
           tt tonic direction @ (case chordType of None \<Rightarrow> '''' | Some quality \<Rightarrow> quality)
       \<and> (pitchClass tonic = Some p \<longrightarrow>
            pitchClass (transposeTonic tieBreak tonic direction) = Some (semitone direction p))
       \<and> transposeValue tieBreak Up ''C'' =
            (case tieBreak Up of Sharp \<Rightarrow> ''C#'' | Flat \<Rightarrow> ''Db'')
       \<and> transposeValue tieBreak Down ''C#'' = ''C''"
proof (intro conjI impI)
  show "transposedChord tok tt ct direction =
          tt tonic direction @ (case chordType of None \<Rightarrow> '''' | Some quality \<Rightarrow> quality)"
    using assms
    by (auto simp: transposedChord_undefined transposedChord_no_slash)
next
  assume "pitchClass tonic = Some p"
  then show "pitchClass (transposeTonic tieBreak tonic direction) = Some (semitone direction p)"
    by (rule pitchClass_transposeTonic)
qed (rule example_up, rule example_down)

theorem transpose_plain_chord_witness:
  "Chord_tokenize (token_value \<lparr>token_value = ''Bbm7''\<rparr>) = (''Bb'', Some ''m7'')
   \<and> CHR ''/'' \<notin> set ''m7''
   \<and> transposedChord Chord_tokenize (transposeTonic sharpsUpFlatsDown)
        \<lparr>token_value = ''Bbm7''\<rparr> Up = ''Bm7''
   \<and> pitchClass ''Bb'' = Some 10
   \<and> pitchClass (transposeTonic sharpsUpFlatsDown ''Bb'' Up) = Some 11
   \<and> transposeValue sharpsUpFlatsDown Up ''C'' = ''C#''
   \<and> transposeValue sharpsUpFlatsDown Down ''C#'' = ''C''"
  using transpose_plain_chord [of Chord_tokenize "\<lparr>token_value = ''Bbm7''\<rparr>" "''Bb''"
      "Some ''m7''" "transposeTonic sharpsUpFlatsDown" Up 10 sharpsUpFlatsDown]
  by (simp add: model_defs)

text \<open>
  C10. For every chord token whose quality contains two or more slashes, that is a quality
  \<open>firstPart/secondPart/remaining\<close>, the split yields all the pieces but only the first two
  are used: the transposed string is the transposed tonic, the first part, a slash and the
  transposed second part. The text from the second slash onward does not occur in it.
\<close>

theorem transpose_drops_after_second_slash:
  assumes "tok (token_value ct) =
             (tonic, Some (firstPart @ ''/'' @ secondPart @ ''/'' @ remaining))"
    and "CHR ''/'' \<notin> set firstPart" and "CHR ''/'' \<notin> set secondPart"
  shows "transposedChord tok tt ct direction =
           tt tonic direction @ firstPart @ ''/'' @ tt secondPart direction
       \<and> split_str (CHR ''/'') (firstPart @ ''/'' @ secondPart @ ''/'' @ remaining) =
           firstPart # secondPart # split_str (CHR ''/'') remaining"
proof
  show "transposedChord tok tt ct direction =
          tt tonic direction @ firstPart @ ''/'' @ tt secondPart direction"
    using assms by (rule transposedChord_two_slashes)
  show "split_str (CHR ''/'') (firstPart @ ''/'' @ secondPart @ ''/'' @ remaining) =
          firstPart # secondPart # split_str (CHR ''/'') remaining"
    using assms(2,3) by (simp add: split_str_def split_from_first)
qed

theorem transpose_drops_after_second_slash_witness:
  "Chord_tokenize (token_value \<lparr>token_value = ''C7/G/B''\<rparr>) = (''C'', Some ''7/G/B'')
   \<and> CHR ''/'' \<notin> set ''7'' \<and> CHR ''/'' \<notin> set ''G''
   \<and> transposedChord Chord_tokenize (transposeTonic sharpsUpFlatsDown)
        \<lparr>token_value = ''C7/G/B''\<rparr> Up = ''C#7/G#''
   \<and> split_str (CHR ''/'') ''7/G/B'' = [''7'', ''G'', ''B'']"
  using transpose_drops_after_second_slash [of Chord_tokenize "\<lparr>token_value = ''C7/G/B''\<rparr>"
      "''C''" "''7''" "''G''" "''B''" "transposeTonic sharpsUpFlatsDown" Up]
  by (simp add: model_defs)

subsection \<open>The batch of changes\<close>

lemma spans_transpose: "map spanOfChange (transpose tok tt rs d) = map spanOfRange rs"
  by (simp add: transpose_map spanOfChange_def spanOfRange_def change_of_def)

text \<open>
  C4. For every sequence of chord-token ranges the batch has exactly one change per range,
  in input order: the change at position \<open>i\<close> carries the span of the range at position
  \<open>i\<close> and the transposed string of its token. The spans of the batch are the spans of the
  input, so nothing is reordered or merged, and an input with ascending, disjoint spans
  gives a batch with ascending, disjoint spans.
\<close>

theorem transpose_edit_batch:
  "length (transpose tok tt ranges direction) = length ranges
   \<and> (\<forall>i < length ranges.
        transpose tok tt ranges direction ! i =
          \<lparr>change_from = range_from (ranges ! i), change_to = range_to (ranges ! i),
           insert_text = transposedChord tok tt (range_chordToken (ranges ! i)) direction\<rparr>)
   \<and> map spanOfChange (transpose tok tt ranges direction) = map spanOfRange ranges
   \<and> (spansAscending (map spanOfRange ranges) \<and> spansDisjoint (map spanOfRange ranges) \<longrightarrow>
        spansAscending (map spanOfChange (transpose tok tt ranges direction)) \<and>
        spansDisjoint (map spanOfChange (transpose tok tt ranges direction)))"
proof (intro conjI allI impI)
  show "length (transpose tok tt ranges direction) = length ranges"
    by (simp add: transpose_map)
next
  fix i assume "i < length ranges"
  then show "transpose tok tt ranges direction ! i =
      \<lparr>change_from = range_from (ranges ! i), change_to = range_to (ranges ! i),
       insert_text = transposedChord tok tt (range_chordToken (ranges ! i)) direction\<rparr>"
    by (simp add: transpose_map change_of_def)
next
  show "map spanOfChange (transpose tok tt ranges direction) = map spanOfRange ranges"
    by (rule spans_transpose)
next
  assume "spansAscending (map spanOfRange ranges) \<and> spansDisjoint (map spanOfRange ranges)"
  then show "spansAscending (map spanOfChange (transpose tok tt ranges direction))"
    and "spansDisjoint (map spanOfChange (transpose tok tt ranges direction))"
    by (simp_all only: spans_transpose)
qed

theorem transpose_edit_batch_witness:
  "transpose Chord_tokenize (transposeTonic sharpsUpFlatsDown)
     [\<lparr>range_from = 5, range_to = 6, range_chordToken = \<lparr>token_value = ''C''\<rparr>\<rparr>,
      \<lparr>range_from = 6, range_to = 8, range_chordToken = \<lparr>token_value = ''Am''\<rparr>\<rparr>,
      \<lparr>range_from = 12, range_to = 15, range_chordToken = \<lparr>token_value = ''G/B''\<rparr>\<rparr>] Up =
     [\<lparr>change_from = 5, change_to = 6, insert_text = ''C#''\<rparr>,
      \<lparr>change_from = 6, change_to = 8, insert_text = ''A#m''\<rparr>,
      \<lparr>change_from = 12, change_to = 15, insert_text = ''G#/C''\<rparr>]
   \<and> spansAscending [(5, 6), (6, 8), (12, 15)] \<and> spansDisjoint [(5, 6), (6, 8), (12, 15)]
   \<and> spansAscending (map spanOfChange (transpose Chord_tokenize (transposeTonic sharpsUpFlatsDown)
     [\<lparr>range_from = 5, range_to = 6, range_chordToken = \<lparr>token_value = ''C''\<rparr>\<rparr>,
      \<lparr>range_from = 6, range_to = 8, range_chordToken = \<lparr>token_value = ''Am''\<rparr>\<rparr>,
      \<lparr>range_from = 12, range_to = 15, range_chordToken = \<lparr>token_value = ''G/B''\<rparr>\<rparr>] Up))
   \<and> spansDisjoint (map spanOfChange (transpose Chord_tokenize (transposeTonic sharpsUpFlatsDown)
     [\<lparr>range_from = 5, range_to = 6, range_chordToken = \<lparr>token_value = ''C''\<rparr>\<rparr>,
      \<lparr>range_from = 6, range_to = 8, range_chordToken = \<lparr>token_value = ''Am''\<rparr>\<rparr>,
      \<lparr>range_from = 12, range_to = 15, range_chordToken = \<lparr>token_value = ''G/B''\<rparr>\<rparr>] Up))"
  using transpose_edit_batch [of Chord_tokenize "transposeTonic sharpsUpFlatsDown"
     "[\<lparr>range_from = 5, range_to = 6, range_chordToken = \<lparr>token_value = ''C''\<rparr>\<rparr>,
      \<lparr>range_from = 6, range_to = 8, range_chordToken = \<lparr>token_value = ''Am''\<rparr>\<rparr>,
      \<lparr>range_from = 12, range_to = 15, range_chordToken = \<lparr>token_value = ''G/B''\<rparr>\<rparr>]" Up]
  by (simp add: transpose_def model_defs spanOfRange_def spanOfChange_def spansAscending_def
      spansDisjoint_def)

text \<open>
  C7. When the bass-note part after the slash is no recognizable tonic, the tonic
  transposition of the spec passes it through verbatim, so the transposed string keeps that
  segment unchanged; and the batch for a block that contains such a token still has one
  change for every token, the changes of the tokens before and after it being the ones
  they have on their own. The loop gives every token its change independently of the
  other tokens, whatever the tonic transposition returns.
\<close>

theorem transpose_malformed_bass:
  assumes "tok (token_value (range_chordToken r)) = (tonic, Some quality)"
    and "CHR ''/'' \<in> set quality"
    and "pitchClass (bassNotePart quality) = None"
  shows "transposedChord tok (transposeTonic tieBreak) (range_chordToken r) direction =
           transposeTonic tieBreak tonic direction @ chordQualityPart quality @ ''/'' @
           bassNotePart quality
       \<and> transpose tok (transposeTonic tieBreak) (before @ r # after) direction =
           transpose tok (transposeTonic tieBreak) before direction @
           \<lparr>change_from = range_from r, change_to = range_to r,
            insert_text = transposeTonic tieBreak tonic direction @ chordQualityPart quality @
              ''/'' @ bassNotePart quality\<rparr> #
           transpose tok (transposeTonic tieBreak) after direction
       \<and> length (transpose tok (transposeTonic tieBreak) (before @ r # after) direction) =
           length before + 1 + length after
       \<and> transpose tok tt (before @ r # after) direction =
           transpose tok tt before direction @ change_of tok tt direction r #
           transpose tok tt after direction"
proof -
  have bass: "transposeTonic tieBreak (bassNotePart quality) direction = bassNotePart quality"
    using assms(3) by (simp add: transposeTonic_def)
  have one: "transposedChord tok (transposeTonic tieBreak) (range_chordToken r) direction =
           transposeTonic tieBreak tonic direction @ chordQualityPart quality @ ''/'' @
           bassNotePart quality"
    using transposedChord_slash [of tok "range_chordToken r" tonic quality
        "transposeTonic tieBreak" direction] assms(1,2)
    by (simp only: bass)
  show ?thesis
    using one by (simp add: transpose_map change_of_def)
qed

theorem transpose_malformed_bass_witness:
  "Chord_tokenize (token_value (range_chordToken
      \<lparr>range_from = 2, range_to = 7, range_chordToken = \<lparr>token_value = ''D/xyz''\<rparr>\<rparr>)) =
     (''D'', Some ''/xyz'')
   \<and> CHR ''/'' \<in> set ''/xyz''
   \<and> pitchClass (bassNotePart ''/xyz'') = None
   \<and> transpose Chord_tokenize (transposeTonic sharpsUpFlatsDown)
       ([\<lparr>range_from = 0, range_to = 1, range_chordToken = \<lparr>token_value = ''C''\<rparr>\<rparr>] @
        \<lparr>range_from = 2, range_to = 7, range_chordToken = \<lparr>token_value = ''D/xyz''\<rparr>\<rparr> #
        [\<lparr>range_from = 8, range_to = 10, range_chordToken = \<lparr>token_value = ''Em''\<rparr>\<rparr>]) Up =
     [\<lparr>change_from = 0, change_to = 1, insert_text = ''C#''\<rparr>,
      \<lparr>change_from = 2, change_to = 7, insert_text = ''D#/xyz''\<rparr>,
      \<lparr>change_from = 8, change_to = 10, insert_text = ''Fm''\<rparr>]"
  using transpose_malformed_bass [of Chord_tokenize
      "\<lparr>range_from = 2, range_to = 7, range_chordToken = \<lparr>token_value = ''D/xyz''\<rparr>\<rparr>"
      "''D''" "''/xyz''" sharpsUpFlatsDown Up
      "[\<lparr>range_from = 0, range_to = 1, range_chordToken = \<lparr>token_value = ''C''\<rparr>\<rparr>]"
      "[\<lparr>range_from = 8, range_to = 10, range_chordToken = \<lparr>token_value = ''Em''\<rparr>\<rparr>]"]
  by (simp add: transpose_def model_defs)

subsection \<open>Round trips\<close>

lemma pitchClass_SomeD:
  assumes "pitchClass t = Some p"
  obtains c accs where "t = c # accs" "is_letter c" "list_all is_accidental accs"
  using assms by (auto simp: pitchClass_def split: list.splits if_splits)

lemma tokenize_recognised:
  assumes "Chord_tokenize v = (t, Some q)" and "pitchClass t = Some p"
  shows "v = t @ q" and "q = [] \<or> \<not> is_accidental (hd q)"
proof -
  from assms(2) have "t \<noteq> []" by (auto simp: pitchClass_def)
  with assms(1) obtain c cs where v: "v = c # cs" and "is_letter c"
    and t: "t = c # takeWhile is_accidental cs" and q: "q = dropWhile is_accidental cs"
    by (auto simp: Chord_tokenize_def split: list.splits if_splits)
  show "v = t @ q" by (simp add: v t q)
  show "q = [] \<or> \<not> is_accidental (hd q)"
    unfolding q using hd_dropWhile [of is_accidental cs] by blast
qed

lemma takeWhile_stop:
  "rest = [] \<or> \<not> P (hd rest) \<Longrightarrow> takeWhile P rest = [] \<and> dropWhile P rest = rest"
  by (cases rest) auto

lemma tokenize_append:
  assumes "pitchClass spelling = Some p" and "rest = [] \<or> \<not> is_accidental (hd rest)"
  shows "Chord_tokenize (spelling @ rest) = (spelling, Some rest)"
proof -
  from assms(1) obtain c accs where spelling: "spelling = c # accs" and c: "is_letter c"
    and accs: "list_all is_accidental accs"
    by (rule pitchClass_SomeD)
  from accs have all: "\<forall>x \<in> set accs. is_accidental x"
    by (simp add: list_all_iff)
  have "takeWhile is_accidental (accs @ rest) = accs"
    and "dropWhile is_accidental (accs @ rest) = rest"
    using all takeWhile_stop [of rest is_accidental] assms(2)
    by (simp_all add: takeWhile_append2 dropWhile_append2)
  then show ?thesis
    using c by (simp add: Chord_tokenize_def spelling)
qed

lemma transposeValue_shape:
  assumes "Chord_tokenize v = (t, Some q)" and "pitchClass t = Some p"
  shows "\<exists>rest. transposeValue tb d v = transposeTonic tb t d @ rest \<and>
           (rest = [] \<or> \<not> is_accidental (hd rest))"
proof (cases "CHR ''/'' \<in> set q")
  case False
  with assms(1) have "transposeValue tb d v = transposeTonic tb t d @ q"
    by (simp add: transposeValue_def transposedChord_no_slash)
  with tokenize_recognised(2) [OF assms] show ?thesis by blast
next
  case True
  let ?rest = "chordQualityPart q @ ''/'' @ transposeTonic tb (bassNotePart q) d"
  from assms(1) True have "transposeValue tb d v = transposeTonic tb t d @ ?rest"
    by (simp add: transposeValue_def transposedChord_slash)
  moreover have "\<not> is_accidental (hd ?rest)"
  proof (cases q)
    case Nil
    with True show ?thesis by simp
  next
    case (Cons x xs)
    with tokenize_recognised(2) [OF assms] have "\<not> is_accidental x" by simp
    then show ?thesis
      by (cases "x = CHR ''/''") (simp_all add: chordQualityPart_def Cons is_accidental_def)
  qed
  ultimately show ?thesis by blast
qed

lemma tokenize_transposeValue:
  assumes "Chord_tokenize v = (t, Some q)" and "pitchClass t = Some p"
  shows "\<exists>q'. Chord_tokenize (transposeValue tb d v) = (transposeTonic tb t d, Some q')"
proof -
  obtain rest where "transposeValue tb d v = transposeTonic tb t d @ rest"
    and "rest = [] \<or> \<not> is_accidental (hd rest)"
    using transposeValue_shape [OF assms] by blast
  moreover have "pitchClass (transposeTonic tb t d) = Some (semitone d p)"
    using assms(2) by (rule pitchClass_transposeTonic)
  ultimately show ?thesis
    using tokenize_append by metis
qed

lemma round_trip_tonic:
  assumes "Chord_tokenize v = (t, Some q)" and "pitchClass t = Some p"
  shows "fst (Chord_tokenize (transposeValue tb d' (transposeValue tb d v))) =
           spell (tb d') (semitone d' (semitone d p))"
proof -
  obtain q' where 1: "Chord_tokenize (transposeValue tb d v) = (transposeTonic tb t d, Some q')"
    using tokenize_transposeValue [OF assms] by blast
  have 2: "pitchClass (transposeTonic tb t d) = Some (semitone d p)"
    using assms(2) by (rule pitchClass_transposeTonic)
  obtain q'' where "Chord_tokenize (transposeValue tb d' (transposeValue tb d v)) =
      (transposeTonic tb (transposeTonic tb t d) d', Some q'')"
    using tokenize_transposeValue [OF 1 2] by blast
  then show ?thesis
    by (simp add: transposeTonic_def [of tb "transposeTonic tb t d"] 2)
qed

lemma spell_Sharp_name:
  "t \<in> set sharpNames \<Longrightarrow> pitchClass t = Some p \<Longrightarrow> spell Sharp p = t"
  by (auto simp: sharpNames_def pitchClass_def spell_def is_letter_def is_accidental_def
      letterSemitone_def)

text \<open>
  C2. For every raw value with a recognizable tonic, transposing up and then down, and
  down and then up, gives a chord whose tonic has the pitch class of the original tonic.
  The twelve tonics C, C#, D, ..., B are recognizable, with the pitch classes 0 to 11. The
  resulting tonic is the canonical spelling of that pitch class for the last step, so its
  spelling differs from the original one only when the original was not that spelling; for
  the twelve tonics above it is the original whenever the last step resolves ties to
  sharps. The statement holds for every tie-break rule.
\<close>

theorem transpose_round_trip:
  assumes "Chord_tokenize v = (tonic, Some quality)" and "pitchClass tonic = Some p"
  shows "pitchClass (fst (Chord_tokenize
           (transposeValue tieBreak Down (transposeValue tieBreak Up v)))) = Some p
       \<and> pitchClass (fst (Chord_tokenize
           (transposeValue tieBreak Up (transposeValue tieBreak Down v)))) = Some p
       \<and> fst (Chord_tokenize (transposeValue tieBreak Down (transposeValue tieBreak Up v))) =
           spell (tieBreak Down) p
       \<and> fst (Chord_tokenize (transposeValue tieBreak Up (transposeValue tieBreak Down v))) =
           spell (tieBreak Up) p
       \<and> (tonic \<in> set sharpNames \<and> tieBreak Down = Sharp \<longrightarrow>
            fst (Chord_tokenize (transposeValue tieBreak Down (transposeValue tieBreak Up v))) =
              tonic)
       \<and> (tonic \<in> set sharpNames \<and> tieBreak Up = Sharp \<longrightarrow>
            fst (Chord_tokenize (transposeValue tieBreak Up (transposeValue tieBreak Down v))) =
              tonic)
       \<and> map pitchClass sharpNames = map Some [0, 1, 2, 3, 4, 5, 6, 7, 8, 9, 10, 11]"
proof -
  from assms(2) have range: "0 \<le> p" "p < 12"
    using pitchClass_range by blast+
  have ud: "fst (Chord_tokenize (transposeValue tieBreak Down (transposeValue tieBreak Up v))) =
      spell (tieBreak Down) p"
    using round_trip_tonic [OF assms, of tieBreak Down Up] range
    by (simp add: semitone_Down_Up)
  have du: "fst (Chord_tokenize (transposeValue tieBreak Up (transposeValue tieBreak Down v))) =
      spell (tieBreak Up) p"
    using round_trip_tonic [OF assms, of tieBreak Up Down] range
    by (simp add: semitone_Up_Down)
  have names: "map pitchClass sharpNames = map Some [0, 1, 2, 3, 4, 5, 6, 7, 8, 9, 10, 11]"
    by (simp add: sharpNames_def pitchClass_def is_letter_def is_accidental_def letterSemitone_def)
  show ?thesis
    using ud du names range assms(2)
    by (auto simp: pitchClass_spell spell_Sharp_name)
qed

theorem transpose_round_trip_witness:
  "Chord_tokenize ''F#m7'' = (''F#'', Some ''m7'') \<and> pitchClass ''F#'' = Some 6
   \<and> transposeValue sharpsUpFlatsDown Up ''F#m7'' = ''Gm7''
   \<and> transposeValue sharpsUpFlatsDown Down ''Gm7'' = ''Gbm7''
   \<and> pitchClass (fst (Chord_tokenize
        (transposeValue sharpsUpFlatsDown Down (transposeValue sharpsUpFlatsDown Up ''F#m7'')))) =
      Some 6
   \<and> transposeValue sharpsUpFlatsDown Down ''F#m7'' = ''Fm7''
   \<and> transposeValue sharpsUpFlatsDown Up ''Fm7'' = ''F#m7''
   \<and> pitchClass (fst (Chord_tokenize
        (transposeValue sharpsUpFlatsDown Up (transposeValue sharpsUpFlatsDown Down ''F#m7'')))) =
      Some 6
   \<and> ''F#'' \<in> set sharpNames \<and> sharpsUpFlatsDown Up = Sharp
   \<and> fst (Chord_tokenize
        (transposeValue sharpsUpFlatsDown Up (transposeValue sharpsUpFlatsDown Down ''F#m7''))) =
      ''F#''"
  using transpose_round_trip [of "''F#m7''" "''F#''" "''m7''" 6 sharpsUpFlatsDown]
  by (simp add: model_defs)

section \<open>The claims about custom chord types\<close>

lemmas registry_defs =
  extendChordType_def customChordTypes_def addCustomChordTypes_def
  loadThenAddCustomChordTypes_def ChordType_add_def sampleBase_def sampleBaseWithout_def
  keysOf_def

lemma extendChordType_empty:
  "empty (get baseName) \<Longrightarrow>
   extendChordType get baseName extension =
     Inl (Error (''Error while extending chord type: chord type '' @ baseName @ '' not found.''))"
  by (simp add: extendChordType_def)

lemma extendChordType_found:
  "\<not> empty (get baseName) \<Longrightarrow>
   extendChordType get baseName extension =
     Inr \<lparr>intervals = (case ext_intervals extension of
                         Some i \<Rightarrow> i | None \<Rightarrow> intervals (get baseName)),
          aliases = aliases (get baseName) @
                      (case ext_aliases extension of Some a \<Rightarrow> a | None \<Rightarrow> []),
          name = (case ext_name extension of Some n \<Rightarrow> n | None \<Rightarrow> name (get baseName))\<rparr>"
  by (simp add: extendChordType_def Let_def)

lemma customChordTypes_missing:
  assumes "empty (get ''7#5'') \<or> empty (get ''M7'') \<or> empty (get ''m9'')"
  shows "\<exists>missing \<in> set [''7#5'', ''M7'', ''m9'']. empty (get missing) \<and>
           customChordTypes get =
             Inl (Error (''Error while extending chord type: chord type '' @ missing @
                          '' not found.''))"
proof (cases "empty (get ''7#5'')")
  case True
  then show ?thesis
    by (simp add: customChordTypes_def extendChordType_empty)
next
  case a: False
  show ?thesis
  proof (cases "empty (get ''M7'')")
    case True
    with a show ?thesis
      by (simp add: customChordTypes_def extendChordType_empty extendChordType_found)
  next
    case False
    with a assms have "empty (get ''m9'')" by blast
    with a False show ?thesis
      by (simp add: customChordTypes_def extendChordType_empty extendChordType_found)
  qed
qed

text \<open>
  C5. For every base type name that the base knowledge base does not know,
  \<open>extendChordType\<close> fails with an error whose message names the missing type. When the
  name is one of the three that the preconfigured set extends, the initializer of
  \<open>customChordTypes\<close> fails as a whole with the error of the first missing name, so loading
  is aborted, and the table is left as it was: no custom chord type is registered.
\<close>

theorem extendChordType_missing_base:
  assumes "empty (get baseName)"
  shows "extendChordType get baseName extension =
           Inl (Error (''Error while extending chord type: chord type '' @ baseName @
                        '' not found.''))
       \<and> (baseName \<in> set [''7#5'', ''M7'', ''m9''] \<longrightarrow>
            (\<exists>missing \<in> set [''7#5'', ''M7'', ''m9'']. empty (get missing) \<and>
               customChordTypes get =
                 Inl (Error (''Error while extending chord type: chord type '' @ missing @
                              '' not found.'')) \<and>
               loadThenAddCustomChordTypes get add table =
                 (table, Some (Error (''Error while extending chord type: chord type '' @
                                       missing @ '' not found.'')))))"
proof (intro conjI impI)
  show "extendChordType get baseName extension =
      Inl (Error (''Error while extending chord type: chord type '' @ baseName @
                   '' not found.''))"
    using assms by (rule extendChordType_empty)
next
  assume "baseName \<in> set [''7#5'', ''M7'', ''m9'']"
  with assms have "empty (get ''7#5'') \<or> empty (get ''M7'') \<or> empty (get ''m9'')"
    by auto
  from customChordTypes_missing [OF this]
  obtain missing where "missing \<in> set [''7#5'', ''M7'', ''m9'']" "empty (get missing)"
    "customChordTypes get =
       Inl (Error (''Error while extending chord type: chord type '' @ missing @
                    '' not found.''))"
    by blast
  then show "\<exists>missing \<in> set [''7#5'', ''M7'', ''m9'']. empty (get missing) \<and>
      customChordTypes get =
        Inl (Error (''Error while extending chord type: chord type '' @ missing @
                     '' not found.'')) \<and>
      loadThenAddCustomChordTypes get add table =
        (table, Some (Error (''Error while extending chord type: chord type '' @
                              missing @ '' not found.'')))"
    by (intro bexI [of _ missing]) (simp_all add: loadThenAddCustomChordTypes_def)
qed

theorem extendChordType_missing_base_witness:
  "empty (sampleBaseWithout ''M7'' ''M7'')
   \<and> extendChordType (sampleBaseWithout ''M7'') ''M7''
        \<lparr>ext_intervals = None, ext_aliases = Some [''7M''], ext_name = None\<rparr> =
       Inl (Error ''Error while extending chord type: chord type M7 not found.'')
   \<and> ''M7'' \<in> set [''7#5'', ''M7'', ''m9'']
   \<and> customChordTypes (sampleBaseWithout ''M7'') =
       Inl (Error ''Error while extending chord type: chord type M7 not found.'')
   \<and> loadThenAddCustomChordTypes (sampleBaseWithout ''M7'') ChordType_add Map.empty =
       (Map.empty, Some (Error ''Error while extending chord type: chord type M7 not found.''))"
  using extendChordType_missing_base [of "sampleBaseWithout ''M7''" "''M7''"
      "\<lparr>ext_intervals = None, ext_aliases = Some [''7M''], ext_name = None\<rparr>"
      ChordType_add Map.empty]
  by (simp add: registry_defs)

text \<open>
  C6. For every known base type and every extension, \<open>extendChordType\<close> returns a type
  whose aliases are the aliases of the base followed by the aliases of the extension, in
  that order and with duplicates kept; \<open>intervals\<close> and \<open>name\<close> are those of the extension
  when it has them and those of the base otherwise. Extending \<open>M7\<close> by the alias \<open>7M\<close>
  gives the alias set of \<open>M7\<close> together with \<open>7M\<close>.
\<close>

theorem extendChordType_merges:
  assumes "\<not> empty (get baseName)"
  shows "\<exists>r. extendChordType get baseName extension = Inr r
       \<and> aliases r =
           aliases (get baseName) @
           (case ext_aliases extension of Some a \<Rightarrow> a | None \<Rightarrow> [])
       \<and> intervals r =
           (case ext_intervals extension of Some i \<Rightarrow> i | None \<Rightarrow> intervals (get baseName))
       \<and> name r =
           (case ext_name extension of Some n \<Rightarrow> n | None \<Rightarrow> name (get baseName))
       \<and> (baseName = ''M7'' \<and>
            extension = \<lparr>ext_intervals = None, ext_aliases = Some [''7M''], ext_name = None\<rparr>
            \<longrightarrow> set (aliases r) = set (aliases (get ''M7'')) \<union> {''7M''})"
  using assms by (auto simp: extendChordType_found)

theorem extendChordType_merges_witness:
  "\<not> empty (sampleBase ''M7'')
   \<and> extendChordType sampleBase ''M7''
        \<lparr>ext_intervals = None, ext_aliases = Some [''7M''], ext_name = None\<rparr> =
       Inr \<lparr>intervals = [''1P'', ''3M'', ''5P'', ''7M''], aliases = [''maj7'', ''M7'', ''7M''],
            name = ''major seventh''\<rparr>
   \<and> aliases (sampleBase ''M7'') = [''maj7'', ''M7'']"
  using extendChordType_merges [of sampleBase "''M7''"
      "\<lparr>ext_intervals = None, ext_aliases = Some [''7M''], ext_name = None\<rparr>"]
  by (simp add: registry_defs)

text \<open>
  C9. When the base knowledge base knows \<open>7#5\<close>, \<open>M7\<close> and \<open>m9\<close>, the preconfigured
  set is exactly four entries, in this order: \<open>7#5\<close> with the further aliases \<open>7(5+)\<close>,
  \<open>7(+5)\<close> and \<open>7+5\<close>; \<open>M7\<close> with the further alias \<open>7M\<close>; \<open>m9\<close> with the further
  alias \<open>m7(9)\<close>; and the new type "suspended four sharp five" with the intervals 1P, 4P
  and 5A (root, perfect fourth, augmented fifth) and the aliases \<open>sus4#5\<close> and \<open>4(5+)\<close>.
\<close>

theorem customChordTypes_preconfigured:
  assumes "\<not> empty (get ''7#5'')" and "\<not> empty (get ''M7'')" and "\<not> empty (get ''m9'')"
  shows "customChordTypes get =
           Inr [\<lparr>intervals = intervals (get ''7#5''),
                 aliases = aliases (get ''7#5'') @ [''7(5+)'', ''7(+5)'', ''7+5''],
                 name = name (get ''7#5'')\<rparr>,
                \<lparr>intervals = intervals (get ''M7''),
                 aliases = aliases (get ''M7'') @ [''7M''],
                 name = name (get ''M7'')\<rparr>,
                \<lparr>intervals = intervals (get ''m9''),
                 aliases = aliases (get ''m9'') @ [''m7(9)''],
                 name = name (get ''m9'')\<rparr>,
                \<lparr>intervals = [''1P'', ''4P'', ''5A''],
                 aliases = [''sus4#5'', ''4(5+)''],
                 name = ''suspended four sharp five''\<rparr>]"
  using assms by (simp add: customChordTypes_def extendChordType_found)

theorem customChordTypes_preconfigured_witness:
  "\<not> empty (sampleBase ''7#5'') \<and> \<not> empty (sampleBase ''M7'') \<and> \<not> empty (sampleBase ''m9'')
   \<and> customChordTypes sampleBase =
       Inr [\<lparr>intervals = [''1P'', ''3M'', ''5A'', ''7m''],
             aliases = [''7#5'', ''+7'', ''7(5+)'', ''7(+5)'', ''7+5''],
             name = ''augmented seventh''\<rparr>,
            \<lparr>intervals = [''1P'', ''3M'', ''5P'', ''7M''],
             aliases = [''maj7'', ''M7'', ''7M''],
             name = ''major seventh''\<rparr>,
            \<lparr>intervals = [''1P'', ''3m'', ''5P'', ''7m'', ''9M''],
             aliases = [''m9'', ''-9'', ''m7(9)''],
             name = ''minor ninth''\<rparr>,
            \<lparr>intervals = [''1P'', ''4P'', ''5A''],
             aliases = [''sus4#5'', ''4(5+)''],
             name = ''suspended four sharp five''\<rparr>]"
  using customChordTypes_preconfigured [of sampleBase]
  by (simp add: sampleBase_def)

lemma fold_upd_apply:
  "fold (\<lambda>key t. t(key \<mapsto> c)) keys table x = (if x \<in> set keys then Some c else table x)"
  by (induction keys arbitrary: table) auto

lemma ChordType_add_apply:
  "ChordType_add (intervals ct) (aliases ct) (name ct) table x =
     (if x \<in> set (keysOf ct) then Some ct else table x)"
  by (simp add: ChordType_add_def fold_upd_apply keysOf_def)

lemma addCustomChordTypes_apply:
  "addCustomChordTypes ChordType_add cts table x =
     (case find (\<lambda>ct. x \<in> set (keysOf ct)) (rev cts) of
        Some ct \<Rightarrow> Some ct
      | None \<Rightarrow> table x)"
proof (induction cts arbitrary: table rule: rev_induct)
  case Nil
  show ?case by (simp add: addCustomChordTypes_def)
next
  case (snoc ct cts)
  have "addCustomChordTypes ChordType_add (cts @ [ct]) table =
      ChordType_add (intervals ct) (aliases ct) (name ct)
        (addCustomChordTypes ChordType_add cts table)"
    by (simp add: addCustomChordTypes_def)
  then show ?case
    by (simp add: ChordType_add_apply snoc.IH)
qed

lemma addCustomChordTypes_twice:
  "addCustomChordTypes ChordType_add cts (addCustomChordTypes ChordType_add cts table) =
     addCustomChordTypes ChordType_add cts table"
proof
  fix x
  show "addCustomChordTypes ChordType_add cts (addCustomChordTypes ChordType_add cts table) x =
      addCustomChordTypes ChordType_add cts table x"
    by (simp add: addCustomChordTypes_apply split: option.splits)
qed

lemma find_Some_member: "find P xs = Some x \<Longrightarrow> x \<in> set xs \<and> P x"
  by (induction xs) (auto split: if_splits)

lemma addCustomChordTypes_registered:
  assumes "ct \<in> set cts" and "key \<in> set (keysOf ct)"
  shows "\<exists>ct' \<in> set cts. key \<in> set (keysOf ct') \<and>
           addCustomChordTypes ChordType_add cts table key = Some ct'"
proof (cases "find (\<lambda>ct. key \<in> set (keysOf ct)) (rev cts)")
  case None
  with assms show ?thesis
    by (auto simp: find_None_iff)
next
  case (Some ct')
  then have "ct' \<in> set cts" and "key \<in> set (keysOf ct')"
    using find_Some_member [of "\<lambda>ct. key \<in> set (keysOf ct)" "rev cts" ct'] by simp_all
  with Some show ?thesis
    by (auto simp: addCustomChordTypes_apply)
qed

lemma addCustomChordTypes_untouched:
  assumes "\<forall>ct \<in> set cts. key \<notin> set (keysOf ct)"
  shows "addCustomChordTypes ChordType_add cts table key = table key"
proof -
  from assms have "find (\<lambda>ct. key \<in> set (keysOf ct)) (rev cts) = None"
    by (simp add: find_None_iff)
  then show ?thesis
    by (simp add: addCustomChordTypes_apply)
qed

text \<open>
  C8. \<open>addCustomChordTypes\<close> is idempotent on the table: a second call leaves the table
  as the first call left it. Each call hands every custom chord type, in order, to the
  registration of the library with its intervals, aliases and name; afterwards the name
  and every alias of every custom chord type resolve to a custom chord type registered
  under that key, and every other key resolves as before.
\<close>

theorem addCustomChordTypes_idempotent:
  "addCustomChordTypes ChordType_add cts (addCustomChordTypes ChordType_add cts table) =
     addCustomChordTypes ChordType_add cts table
   \<and> addCustomChordTypes add (ct # cts) state =
       addCustomChordTypes add cts (add (intervals ct) (aliases ct) (name ct) state)
   \<and> (\<forall>ct \<in> set cts. \<forall>key \<in> set (keysOf ct).
        \<exists>ct' \<in> set cts. key \<in> set (keysOf ct') \<and>
          addCustomChordTypes ChordType_add cts table key = Some ct')
   \<and> (\<forall>key. (\<forall>ct \<in> set cts. key \<notin> set (keysOf ct)) \<longrightarrow>
        addCustomChordTypes ChordType_add cts table key = table key)"
  using addCustomChordTypes_twice addCustomChordTypes_registered addCustomChordTypes_untouched
  by (simp add: addCustomChordTypes_def [of add])

theorem addCustomChordTypes_idempotent_witness:
  "customChordTypes sampleBase = Inr samplePreconfigured
   \<and> addCustomChordTypes ChordType_add samplePreconfigured
       (addCustomChordTypes ChordType_add samplePreconfigured Map.empty) =
     addCustomChordTypes ChordType_add samplePreconfigured Map.empty
   \<and> addCustomChordTypes ChordType_add samplePreconfigured Map.empty ''7M'' =
       Some \<lparr>intervals = [''1P'', ''3M'', ''5P'', ''7M''], aliases = [''maj7'', ''M7'', ''7M''],
             name = ''major seventh''\<rparr>
   \<and> addCustomChordTypes ChordType_add samplePreconfigured Map.empty ''4(5+)'' =
       Some \<lparr>intervals = [''1P'', ''4P'', ''5A''], aliases = [''sus4#5'', ''4(5+)''],
             name = ''suspended four sharp five''\<rparr>
   \<and> addCustomChordTypes ChordType_add samplePreconfigured Map.empty ''dim'' = None"
proof -
  note t = addCustomChordTypes_idempotent [of samplePreconfigured Map.empty]
  have "addCustomChordTypes ChordType_add samplePreconfigured
       (addCustomChordTypes ChordType_add samplePreconfigured Map.empty) =
     addCustomChordTypes ChordType_add samplePreconfigured Map.empty"
    by (rule t [THEN conjunct1])
  moreover have "customChordTypes sampleBase = Inr samplePreconfigured"
    by (simp add: registry_defs samplePreconfigured_def)
  moreover have "addCustomChordTypes ChordType_add samplePreconfigured Map.empty ''7M'' =
       Some \<lparr>intervals = [''1P'', ''3M'', ''5P'', ''7M''], aliases = [''maj7'', ''M7'', ''7M''],
             name = ''major seventh''\<rparr>"
    by (simp add: addCustomChordTypes_def ChordType_add_def samplePreconfigured_def)
  moreover have "addCustomChordTypes ChordType_add samplePreconfigured Map.empty ''4(5+)'' =
       Some \<lparr>intervals = [''1P'', ''4P'', ''5A''], aliases = [''sus4#5'', ''4(5+)''],
             name = ''suspended four sharp five''\<rparr>"
    by (simp add: addCustomChordTypes_def ChordType_add_def samplePreconfigured_def)
  moreover have "addCustomChordTypes ChordType_add samplePreconfigured Map.empty ''dim'' = None"
    by (simp add: addCustomChordTypes_def ChordType_add_def samplePreconfigured_def)
  ultimately show ?thesis by blast
qed

end
